theory Spec2Isabelle
  imports Main "HOL-Library.Word" "HOL-Library.Code_Target_Nat"
begin

section \<open>Go library functions used by validator.go\<close>

text \<open>
  A Go \<open>string\<close> is a sequence of bytes; it is modelled as a \<open>string\<close>
  (a list of \<open>char\<close>, one per byte). A \<open>[]byte\<close> buffer is a list of
  8-bit words. Go's \<open>int\<close> and \<open>int64\<close> are modelled as \<open>int\<close>: the
  package does no arithmetic on them, it only compares and prints them, and the one
  place where the 64-bit range matters (\<open>strconv.ParseInt\<close>) has the range
  checks written out.
\<close>

type_synonym byte = "8 word"

definition byte_of :: "char \<Rightarrow> nat" where
  "byte_of c = of_char c"

subsection \<open>strings.ToLower, strings.TrimSpace\<close>

text \<open>
  Both library functions have an ASCII path, which is modelled here in full, and a
  fallback driven by the Unicode tables once the string holds a byte \<open>\<ge> 0x80\<close>.
  The table-driven fallbacks and the content sniffer of \<open>net/http\<close> are not part
  of the package; they are taken as parameters, collected in the record \<open>golib\<close>.
\<close>

record golib =
  MapToLower :: "string \<Rightarrow> string"
    \<comment> \<open>\<open>strings.Map(unicode.ToLower, s)\<close>\<close>
  TrimFuncIsSpace :: "string \<Rightarrow> string"
    \<comment> \<open>\<open>strings.TrimFunc(s, unicode.IsSpace)\<close>\<close>
  TrimRightFuncIsSpace :: "string \<Rightarrow> string"
    \<comment> \<open>\<open>strings.TrimRightFunc(s, unicode.IsSpace)\<close>\<close>
  DetectContentType :: "byte list \<Rightarrow> string"
    \<comment> \<open>\<open>http.DetectContentType(data)\<close>\<close>

definition isASCII :: "string \<Rightarrow> bool" where
  "isASCII s = list_all (\<lambda>c. byte_of c < 128) s"

definition lowerASCII :: "char \<Rightarrow> char" where
  "lowerASCII c =
     (if 65 \<le> byte_of c \<and> byte_of c \<le> 90 then char_of (byte_of c + 32) else c)"

definition ToLower :: "golib \<Rightarrow> string \<Rightarrow> string" where
  "ToLower L s = (if isASCII s then map lowerASCII s else MapToLower L s)"

definition asciiSpace :: "char \<Rightarrow> bool" where
  "asciiSpace c = (byte_of c \<in> {9, 10, 11, 12, 13, 32})"

fun trimLeft :: "golib \<Rightarrow> string \<Rightarrow> (string + string)" where
  "trimLeft L [] = Inr []"
| "trimLeft L (c # cs) =
     (if 128 \<le> byte_of c then Inl (TrimFuncIsSpace L (c # cs))
      else if asciiSpace c then trimLeft L cs
      else Inr (c # cs))"

fun trimRight :: "golib \<Rightarrow> string \<Rightarrow> string" where
  "trimRight L [] = []"
| "trimRight L (c # cs) =
     (if 128 \<le> byte_of c then rev (TrimRightFuncIsSpace L (rev (c # cs)))
      else if asciiSpace c then trimRight L cs
      else c # cs)"

text \<open>
  \<open>trimLeft\<close> is the first loop of \<open>strings.TrimSpace\<close> (\<open>Inl\<close>: it returned
  through the Unicode fallback); \<open>trimRight\<close> is the second loop, run on the reversed
  remainder and giving its result reversed.
\<close>

definition TrimSpace :: "golib \<Rightarrow> string \<Rightarrow> string" where
  "TrimSpace L s =
     (case trimLeft L s of
        Inl r \<Rightarrow> r
      | Inr rest \<Rightarrow> rev (trimRight L (rev rest)))"

subsection \<open>strings.HasPrefix, strings.Join, filepath.Ext\<close>

definition HasPrefix :: "string \<Rightarrow> string \<Rightarrow> bool" where
  "HasPrefix s pre = (length pre \<le> length s \<and> take (length pre) s = pre)"

fun Join :: "string list \<Rightarrow> string \<Rightarrow> string" where
  "Join [] sep = []"
| "Join [x] sep = x"
| "Join (x # y # zs) sep = x @ sep @ Join (y # zs) sep"

text \<open>
  \<open>filepath.Ext\<close> scans the path from its end and stops at the first path separator
  (\<open>/\<close>) or dot; \<open>Ext_loop\<close> walks the reversed path and keeps what it has passed.
\<close>

fun Ext_loop :: "string \<Rightarrow> string \<Rightarrow> string" where
  "Ext_loop [] seen = []"
| "Ext_loop (c # cs) seen =
     (if c = CHR ''/'' then []
      else if c = CHR ''.'' then c # seen
      else Ext_loop cs (c # seen))"

definition Ext :: "string \<Rightarrow> string" where
  "Ext path = Ext_loop (rev path) []"

subsection \<open>fmt.Sprintf with the verb d\<close>

definition digit_char :: "nat \<Rightarrow> char" where
  "digit_char d = char_of (48 + d)"

fun digits :: "nat \<Rightarrow> string" where
  "digits n = (if n < 10 then [digit_char n] else digits (n div 10) @ [digit_char (n mod 10)])"

definition FormatInt :: "int \<Rightarrow> string" where
  "FormatInt i = (if i < 0 then CHR ''-'' # digits (nat (- i)) else digits (nat i))"

subsection \<open>strconv.ParseInt (base 10, 64 bits), strconv.ParseBool\<close>

datatype NumError = ErrSyntax | ErrRange

definition maxUint64 :: nat where
  "maxUint64 = 2 ^ 64 - 1"

text \<open>
  The loop of \<open>strconv.ParseUint\<close> for base 10 and bit size 64. \<open>n\<close> is the
  \<open>uint64\<close> accumulator; the sum \<open>n * 10 + d\<close> is reduced modulo \<open>2 ^ 64\<close> as the
  machine addition is, and the library's own overflow test follows it.
\<close>

fun ParseUint_loop :: "string \<Rightarrow> nat \<Rightarrow> NumError + nat" where
  "ParseUint_loop [] n = Inr n"
| "ParseUint_loop (c # cs) n =
     (if \<not> (48 \<le> byte_of c \<and> byte_of c \<le> 57) then Inl ErrSyntax
      else if n \<ge> maxUint64 div 10 + 1 then Inl ErrRange
      else
        (let n10 = n * 10;
             n1 = (n10 + (byte_of c - 48)) mod 2 ^ 64
         in if n1 < n10 \<or> n1 > maxUint64 then Inl ErrRange
            else ParseUint_loop cs n1))"

definition ParseUint :: "string \<Rightarrow> NumError + nat" where
  "ParseUint s = (if s = [] then Inl ErrSyntax else ParseUint_loop s 0)"

definition ParseInt :: "string \<Rightarrow> NumError + int" where
  "ParseInt s =
     (if s = [] then Inl ErrSyntax
      else
        (let neg = (hd s = CHR ''-'');
             s1 = (if hd s = CHR ''+'' \<or> hd s = CHR ''-'' then tl s else s)
         in case ParseUint s1 of
              Inl ErrSyntax \<Rightarrow> Inl ErrSyntax
            | Inl ErrRange \<Rightarrow> Inl ErrRange
            | Inr un \<Rightarrow>
                if \<not> neg \<and> un \<ge> 2 ^ 63 then Inl ErrRange
                else if neg \<and> un > 2 ^ 63 then Inl ErrRange
                else Inr (if neg then - int un else int un)))"

definition ParseBool :: "string \<Rightarrow> NumError + bool" where
  "ParseBool str =
     (if str \<in> set [''1'', ''t'', ''T'', ''TRUE'', ''true'', ''True''] then Inr True
      else if str \<in> set [''0'', ''f'', ''F'', ''FALSE'', ''false'', ''False''] then Inr False
      else Inl ErrSyntax)"

subsection \<open>utf8.RuneCountInString\<close>

text \<open>
  The table \<open>first\<close> of \<open>unicode/utf8\<close>: for a lead byte, the length of the
  sequence it starts and the range accepted for the second byte; \<open>None\<close> for a byte
  that starts no sequence.
\<close>

definition first :: "nat \<Rightarrow> (nat \<times> nat \<times> nat) option" where
  "first c =
     (if c < 0xC2 then None
      else if c < 0xE0 then Some (2, 0x80, 0xBF)
      else if c = 0xE0 then Some (3, 0xA0, 0xBF)
      else if c < 0xED then Some (3, 0x80, 0xBF)
      else if c = 0xED then Some (3, 0x80, 0x9F)
      else if c < 0xF0 then Some (3, 0x80, 0xBF)
      else if c = 0xF0 then Some (4, 0x90, 0xBF)
      else if c < 0xF4 then Some (4, 0x80, 0xBF)
      else if c = 0xF4 then Some (4, 0x80, 0x8F)
      else None)"

text \<open>
  One turn of the loop of \<open>RuneCountInString\<close>: the number of bytes by which the
  index advances when the rest of the string is \<open>s\<close> (not empty).
\<close>

definition rune_width :: "string \<Rightarrow> nat" where
  "rune_width s =
     (let c = byte_of (hd s) in
      if c < 128 then 1
      else
        (case first c of
           None \<Rightarrow> 1
         | Some (sz, lo, hi) \<Rightarrow>
             if length s < sz then 1
             else if byte_of (s ! 1) < lo \<or> hi < byte_of (s ! 1) then 1
             else if sz = 2 then 2
             else if byte_of (s ! 2) < 0x80 \<or> 0xBF < byte_of (s ! 2) then 1
             else if sz = 3 then 3
             else if byte_of (s ! 3) < 0x80 \<or> 0xBF < byte_of (s ! 3) then 1
             else 4))"

fun RuneCountInString :: "string \<Rightarrow> nat" where
  "RuneCountInString [] = 0"
| "RuneCountInString (c # cs) = Suc (RuneCountInString (drop (rune_width (c # cs) - 1) cs))"

text \<open>
  The reference the rune count is compared with: the UTF-8 encoding of a Unicode scalar
  value (a code point outside the surrogate range), as the Unicode standard defines it.
\<close>

definition scalar_value :: "nat \<Rightarrow> bool" where
  "scalar_value r = (r < 0xD800 \<or> (0xE000 \<le> r \<and> r < 0x110000))"

definition utf8_encode :: "nat \<Rightarrow> string" where
  "utf8_encode r =
     (if r < 0x80 then [char_of r]
      else if r < 0x800 then [char_of (0xC0 + r div 64), char_of (0x80 + r mod 64)]
      else if r < 0x10000 then
        [char_of (0xE0 + r div 4096), char_of (0x80 + (r div 64) mod 64),
         char_of (0x80 + r mod 64)]
      else
        [char_of (0xF0 + r div 262144), char_of (0x80 + (r div 4096) mod 64),
         char_of (0x80 + (r div 64) mod 64), char_of (0x80 + r mod 64)])"

definition utf8_string :: "nat list \<Rightarrow> string" where
  "utf8_string rs = concat (map utf8_encode rs)"

section \<open>The validator (validator.go)\<close>

subsection \<open>Data\<close>

record FileValidationConfig =
  MaxSize :: int
  AllowedTypes :: "string list"
  AllowedExts :: "string list"

definition MimeJPEG :: string where "MimeJPEG = ''image/jpeg''"
definition MimePNG :: string where "MimePNG = ''image/png''"
definition MimeGIF :: string where "MimeGIF = ''image/gif''"
definition MimeWEBP :: string where "MimeWEBP = ''image/webp''"

definition DefaultImageFormats :: "string list" where
  "DefaultImageFormats = [''jpg'', ''jpeg'', ''png'', ''gif'', ''webp'']"

definition KB :: int where "KB = 1024"
definition MB :: int where "MB = 1024 * KB"

text \<open>
  A \<open>multipart.FileHeader\<close>: its file name, its size, and what its method \<open>Open\<close>
  does. \<open>Open\<close> either fails or gives a stream; of the stream the package only uses
  the first \<open>Read\<close> into a buffer of 512 bytes, which copies some bytes to the front
  of the buffer and returns no error, \<open>io.EOF\<close> or another error.
\<close>

datatype read_error = EOF | ReadFailed

datatype open_result = OpenFailed | Opened "byte list" "read_error option"

record FileHeader =
  Filename :: string
  Size :: int
  Open :: open_result

text \<open>
  The three Go maps of a \<open>Validator\<close>. A Go map of strings gives \<open>""\<close> for a key
  it does not hold and a map of pointers gives \<open>nil\<close>; a stored file pointer may
  itself be \<open>nil\<close> (\<open>None\<close>). The field \<open>values\<close> is written \<open>values'\<close>.
\<close>

record Validator =
  Errors :: "string \<rightharpoonup> string"
  values' :: "string \<rightharpoonup> string"
  files :: "string \<rightharpoonup> FileHeader option"

type_synonym ValidationFunc = "string \<Rightarrow> string \<Rightarrow> bool \<times> string"

text \<open>The calls \<open>Image\<close> makes on the file, in order.\<close>

datatype io_event = EvOpen | EvRead | EvClose

subsection \<open>Construction and stores\<close>

definition New :: Validator where
  "New = \<lparr>Errors = Map.empty, values' = Map.empty, files = Map.empty\<rparr>"

definition SetValue :: "Validator \<Rightarrow> string \<Rightarrow> string \<Rightarrow> Validator" where
  "SetValue v field value = v\<lparr>values' := (values' v)(field \<mapsto> value)\<rparr>"

definition GetValue :: "Validator \<Rightarrow> string \<Rightarrow> string" where
  "GetValue v field = (case values' v field of None \<Rightarrow> [] | Some value \<Rightarrow> value)"

definition SetFile :: "Validator \<Rightarrow> string \<Rightarrow> FileHeader option \<Rightarrow> Validator" where
  "SetFile v field file = v\<lparr>files := (files v)(field \<mapsto> file)\<rparr>"

definition GetFile :: "Validator \<Rightarrow> string \<Rightarrow> FileHeader option" where
  "GetFile v field = (case files v field of None \<Rightarrow> None | Some file \<Rightarrow> file)"

definition set_error :: "Validator \<Rightarrow> string \<Rightarrow> string \<Rightarrow> Validator" where
  "set_error v field message = v\<lparr>Errors := (Errors v)(field \<mapsto> message)\<rparr>"

text \<open>\<open>set_error\<close> is the assignment \<open>v.Errors[field] = message\<close>.\<close>

subsection \<open>ImageConfig\<close>

fun ImageConfig_loop ::
  "golib \<Rightarrow> string list \<Rightarrow> string list \<Rightarrow> string list \<Rightarrow> string list \<times> string list" where
  "ImageConfig_loop L [] mimeTypes extensions = (mimeTypes, extensions)"
| "ImageConfig_loop L (format # formats) mimeTypes extensions =
     (let f = ToLower L format in
      if f = ''jpg'' \<or> f = ''jpeg'' then
        ImageConfig_loop L formats (mimeTypes @ [MimeJPEG]) (extensions @ [''.jpg'', ''.jpeg''])
      else if f = ''png'' then
        ImageConfig_loop L formats (mimeTypes @ [MimePNG]) (extensions @ [''.png''])
      else if f = ''gif'' then
        ImageConfig_loop L formats (mimeTypes @ [MimeGIF]) (extensions @ [''.gif''])
      else if f = ''webp'' then
        ImageConfig_loop L formats (mimeTypes @ [MimeWEBP]) (extensions @ [''.webp''])
      else ImageConfig_loop L formats mimeTypes extensions)"

definition ImageConfig :: "golib \<Rightarrow> int \<Rightarrow> string list \<Rightarrow> FileValidationConfig" where
  "ImageConfig L maxSize formats =
     (let formats' = (if length formats = 0 then DefaultImageFormats else formats) in
      case ImageConfig_loop L formats' [] [] of
        (mimeTypes, extensions) \<Rightarrow>
          \<lparr>MaxSize = maxSize, AllowedTypes = mimeTypes, AllowedExts = extensions\<rparr>)"

subsection \<open>Image\<close>

fun validExt_loop :: "golib \<Rightarrow> string list \<Rightarrow> string \<Rightarrow> bool" where
  "validExt_loop L [] ext = False"
| "validExt_loop L (allowedExt # rest) ext =
     (if ToLower L allowedExt = ext then True else validExt_loop L rest ext)"

fun validType_loop :: "string list \<Rightarrow> string \<Rightarrow> bool" where
  "validType_loop [] detectedType = False"
| "validType_loop (allowedType # rest) detectedType =
     (if HasPrefix detectedType allowedType then True else validType_loop rest detectedType)"

definition size_message :: "int \<Rightarrow> string" where
  "size_message maxSize =
     ''File size exceeds maximum limit of '' @ FormatInt maxSize @ '' bytes''"

definition ext_message :: "string list \<Rightarrow> string" where
  "ext_message exts = ''Invalid file extension. Allowed: '' @ Join exts '', ''"

definition type_message :: "string list \<Rightarrow> string" where
  "type_message types = ''Invalid file type. Allowed: '' @ Join types '', ''"

text \<open>The buffer of 512 zero bytes after the read has copied \<open>data\<close> to its front.\<close>

definition read_buffer :: "byte list \<Rightarrow> byte list" where
  "read_buffer data = take 512 data @ replicate (512 - length (take 512 data)) 0"

definition Image ::
  "golib \<Rightarrow> Validator \<Rightarrow> string \<Rightarrow> FileValidationConfig \<Rightarrow>
     FileHeader option \<times> Validator \<times> io_event list" where
  "Image L v field config =
     (case GetFile v field of
        None \<Rightarrow> (None, set_error v field ''No file was uploaded'', [])
      | Some file \<Rightarrow>
          if MaxSize config > 0 \<and> Size file > MaxSize config then
            (None, set_error v field (size_message (MaxSize config)), [])
          else
            (let ext = ToLower L (Ext (Filename file)) in
             if length (AllowedExts config) > 0 \<and> \<not> validExt_loop L (AllowedExts config) ext then
               (None, set_error v field (ext_message (AllowedExts config)), [])
             else
               (case Open file of
                  OpenFailed \<Rightarrow> (None, set_error v field ''Could not process file'', [EvOpen])
                | Opened data err \<Rightarrow>
                    if err = Some ReadFailed then
                      (None, set_error v field ''Could not read file content'',
                       [EvOpen, EvRead, EvClose])
                    else
                      (let detectedType = DetectContentType L (read_buffer data) in
                       if length (AllowedTypes config) > 0
                          \<and> \<not> validType_loop (AllowedTypes config) detectedType then
                         (None, set_error v field (type_message (AllowedTypes config)),
                          [EvOpen, EvRead, EvClose])
                       else (Some file, v, [EvOpen, EvRead, EvClose])))))"

subsection \<open>String, Int, Check, Valid\<close>

text \<open>
  The loop over the validations, shared by \<open>String\<close> and \<open>Int\<close> (written
  \<open>Int'\<close>). Beside the
  validator it gives the number of validation functions it has called.
\<close>

fun validations_loop ::
  "ValidationFunc list \<Rightarrow> string \<Rightarrow> string \<Rightarrow> Validator \<Rightarrow> Validator \<times> nat" where
  "validations_loop [] field value v = (v, 0)"
| "validations_loop (validation # rest) field value v =
     (case validation field value of
        (ok, message) \<Rightarrow>
          if \<not> ok then (set_error v field message, 1)
          else (case validations_loop rest field value v of (v', k) \<Rightarrow> (v', Suc k)))"

definition String :: "Validator \<Rightarrow> string \<Rightarrow> ValidationFunc list \<Rightarrow> string \<times> Validator" where
  "String v field validations =
     (let value = GetValue v field in
      (value, fst (validations_loop validations field value v)))"

definition Int' :: "Validator \<Rightarrow> string \<Rightarrow> ValidationFunc list \<Rightarrow> int \<times> Validator" where
  "Int' v field validations =
     (let value = GetValue v field;
          v1 = fst (validations_loop validations field value v)
      in case ParseInt value of
           Inl err \<Rightarrow> (0, set_error v1 field ''This field must be a valid integer'')
         | Inr intValue \<Rightarrow> (intValue, v1))"

definition Check :: "Validator \<Rightarrow> bool \<Rightarrow> string \<Rightarrow> string \<Rightarrow> Validator" where
  "Check v ok field message = (if \<not> ok then set_error v field message else v)"

definition Valid :: "Validator \<Rightarrow> bool" where
  "Valid v = (dom (Errors v) = {})"

subsection \<open>Predefined validation functions\<close>

definition Required :: "golib \<Rightarrow> ValidationFunc" where
  "Required L field value =
     (if TrimSpace L value = [] then (False, ''This field is required'') else (True, []))"

definition MinLength :: "int \<Rightarrow> ValidationFunc" where
  "MinLength minlen field value =
     (if int (RuneCountInString value) < minlen then
        (False, ''This field must be at least '' @ FormatInt minlen @ '' characters long'')
      else (True, []))"

definition MaxLength :: "int \<Rightarrow> ValidationFunc" where
  "MaxLength maxlen field value =
     (if int (RuneCountInString value) > maxlen then
        (False, ''This field must not exceed '' @ FormatInt maxlen @ '' characters'')
      else (True, []))"

definition Boolean :: "golib \<Rightarrow> ValidationFunc" where
  "Boolean L field value =
     (let value' = TrimSpace L (ToLower L value) in
      case ParseBool value' of
        Inl err \<Rightarrow> (False, ''This field must be true or false'')
      | Inr b \<Rightarrow> (True, []))"

definition IntRange :: "int \<Rightarrow> int \<Rightarrow> ValidationFunc" where
  "IntRange minval maxval field value = (True, [])"

fun InStringSlice :: "string list \<Rightarrow> ValidationFunc" where
  "InStringSlice [] field value = (False, ''This value is not in the allowed list'')"
| "InStringSlice (item # rest) field value =
     (if item = value then (True, []) else InStringSlice rest field value)"

definition Custom :: "(string \<Rightarrow> bool) \<Rightarrow> string \<Rightarrow> ValidationFunc" where
  "Custom check message field value = (if \<not> check value then (False, message) else (True, []))"

text \<open>
  \<open>Email\<close> and \<open>Matches\<close> run a regular expression of the \<open>regexp\<close> library and
  are not modelled; a validation function is any function of its type.
\<close>

subsection \<open>Sequences of calls\<close>

datatype call =
    CallSetValue string string
  | CallSetFile string "FileHeader option"
  | CallString string "ValidationFunc list"
  | CallInt string "ValidationFunc list"
  | CallImage string FileValidationConfig
  | CallCheck bool string string
  | CallValid

fun do_call :: "golib \<Rightarrow> Validator \<Rightarrow> call \<Rightarrow> Validator" where
  "do_call L v (CallSetValue field value) = SetValue v field value"
| "do_call L v (CallSetFile field file) = SetFile v field file"
| "do_call L v (CallString field validations) = snd (String v field validations)"
| "do_call L v (CallInt field validations) = snd (Int' v field validations)"
| "do_call L v (CallImage field config) = fst (snd (Image L v field config))"
| "do_call L v (CallCheck ok field message) = Check v ok field message"
| "do_call L v CallValid = v"

fun do_calls :: "golib \<Rightarrow> Validator \<Rightarrow> call list \<Rightarrow> Validator" where
  "do_calls L v [] = v"
| "do_calls L v (c # cs) = do_calls L (do_call L v c) cs"

subsection \<open>The conditions of the first two checks of Image\<close>

text \<open>
  The conditions under which \<open>Image\<close> stops at the size check and at the extension
  check, as the code writes them; the theorems about \<open>Image\<close> name them.
\<close>

definition size_exceeded :: "FileValidationConfig \<Rightarrow> FileHeader \<Rightarrow> bool" where
  "size_exceeded config file = (MaxSize config > 0 \<and> Size file > MaxSize config)"

definition ext_rejected :: "golib \<Rightarrow> FileValidationConfig \<Rightarrow> FileHeader \<Rightarrow> bool" where
  "ext_rejected L config file =
     (length (AllowedExts config) > 0 \<and>
      \<not> validExt_loop L (AllowedExts config) (ToLower L (Ext (Filename file))))"

subsection \<open>The format table as the specification states it\<close>

text \<open>
  The MIME type and the extensions the specification gives for a lower-cased format
  name; nothing for a name it does not list. \<open>ImageConfig\<close> is compared with this
  table.
\<close>

definition registry_types :: "string \<Rightarrow> string list" where
  "registry_types name =
     (if name = ''jpg'' \<or> name = ''jpeg'' then [''image/jpeg'']
      else if name = ''png'' then [''image/png'']
      else if name = ''gif'' then [''image/gif'']
      else if name = ''webp'' then [''image/webp'']
      else [])"

definition registry_exts :: "string \<Rightarrow> string list" where
  "registry_exts name =
     (if name = ''jpg'' \<or> name = ''jpeg'' then [''.jpg'', ''.jpeg'']
      else if name = ''png'' then [''.png'']
      else if name = ''gif'' then [''.gif'']
      else if name = ''webp'' then [''.webp'']
      else [])"

subsection \<open>A library instance for worked examples\<close>

text \<open>
  The theorems below hold for every \<open>golib\<close>. Worked examples need a concrete one:
  \<open>exampleLib\<close> leaves a string with a non-ASCII byte as it is and tells a JPEG
  signature from other binary data, which is what \<open>http.DetectContentType\<close> answers
  on the buffers of the examples. The examples use ASCII strings only, so the three
  string fallbacks are never reached.
\<close>

definition exampleLib :: golib where
  "exampleLib =
     \<lparr>MapToLower = (\<lambda>s. s), TrimFuncIsSpace = (\<lambda>s. s), TrimRightFuncIsSpace = (\<lambda>s. s),
      DetectContentType =
        (\<lambda>data. if take 3 data = [0xFF, 0xD8, 0xFF] then ''image/jpeg''
                else ''application/octet-stream'')\<rparr>"

text \<open>
  Two uploads for the examples: the JPEG file and the text file of the package's tests.
\<close>

definition exampleJPEG :: FileHeader where
  "exampleJPEG =
     \<lparr>Filename = ''test.jpg'', Size = 27,
      Open = Opened
        [0xFF, 0xD8, 0xFF, 0xE0, 0x00, 0x10, 0x4A, 0x46, 0x49, 0x46, 0x00, 0x01,
         0x01, 0x01, 0x00, 0x48, 0x00, 0x48, 0x00, 0x00, 0xFF, 0xDB, 0x00, 0x43,
         0x00, 0xFF, 0xD9] None\<rparr>"

definition exampleTXT :: FileHeader where
  "exampleTXT =
     \<lparr>Filename = ''test.txt'', Size = 12,
      Open = Opened
        [0x74, 0x65, 0x78, 0x74, 0x20, 0x63, 0x6F, 0x6E, 0x74, 0x65, 0x6E, 0x74] None\<rparr>"

section \<open>Properties\<close>

subsection \<open>Rune counts of UTF-8 encodings\<close>

lemma byte_of_char_of: "n < 256 \<Longrightarrow> byte_of (char_of n) = n"
  by (simp add: byte_of_def)

lemma rune_width_1: "r < 0x80 \<Longrightarrow> rune_width (utf8_encode r @ rest) = 1"
  by (simp add: rune_width_def utf8_encode_def byte_of_char_of)

lemma rune_width_2:
  assumes "0x80 \<le> r" "r < 0x800"
  shows "rune_width (utf8_encode r @ rest) = 2"
proof -
  have a: "0xC0 + r div 64 < 256" "0xC2 \<le> 0xC0 + r div 64" "0xC0 + r div 64 < 0xE0"
    using assms by simp_all
  have b: "0x80 + r mod 64 < 256" "0x80 \<le> 0x80 + r mod 64" "0x80 + r mod 64 \<le> 0xBF"
    by simp_all
  show ?thesis
    using assms a b
    by (simp add: rune_width_def utf8_encode_def byte_of_char_of first_def)
qed

lemma cont_byte: "0x80 + (n::nat) mod 64 < 256" "\<not> 0x80 + (n::nat) mod 64 < 0x80"
  "\<not> 0xBF < 0x80 + (n::nat) mod 64"
  by simp_all


lemma div_eqD: "(r::nat) div k = a \<Longrightarrow> 0 < k \<Longrightarrow> a * k \<le> r \<and> r < (a + 1) * k"
  using div_times_less_eq_dividend [of r k] dividend_less_div_times [of k r]
  by (auto simp: add.commute)

lemma div_range:
  "a * k \<le> (r::nat) \<Longrightarrow> r < b * k \<Longrightarrow> 0 < k \<Longrightarrow> a \<le> r div k \<and> r div k < b"
  by (simp add: less_eq_div_iff_mult_less_eq div_less_iff_less_mult)

lemma mod64_shift: "(a * 64 + t) mod 64 = (t::nat) mod 64"
  by simp

lemma second_E0: "(32::nat) \<le> q \<Longrightarrow> q < 64 \<Longrightarrow> 160 \<le> 128 + q mod 64"
  by simp

lemma second_F0: "(16::nat) \<le> q \<Longrightarrow> q < 64 \<Longrightarrow> 144 \<le> 128 + q mod 64"
  by simp

lemma second_ED:
  assumes "(832::nat) \<le> q" "q < 864"
  shows "128 + q mod 64 \<le> 159"
proof -
  have "q = 13 * 64 + (q - 832)" using assms by simp
  then have "q mod 64 = (q - 832) mod 64" using mod64_shift [of 13 "q - 832"] by simp
  also have "\<dots> = q - 832" using assms by simp
  finally show ?thesis using assms by simp
qed

lemma second_F4:
  assumes "(256::nat) \<le> q" "q < 272"
  shows "128 + q mod 64 \<le> 143"
proof -
  have "q = 4 * 64 + (q - 256)" using assms by simp
  then have "q mod 64 = (q - 256) mod 64" using mod64_shift [of 4 "q - 256"] by simp
  also have "\<dots> = q - 256" using assms by simp
  finally show ?thesis using assms by simp
qed

lemma rune_width_3:
  assumes "0x800 \<le> r" "r < 0x10000" "scalar_value r"
  shows "rune_width (utf8_encode r @ rest) = 3"
proof -
  let ?l = "0xE0 + r div 4096"
  let ?s = "0x80 + (r div 64) mod 64"
  have l: "?l < 256" "0xE0 \<le> ?l" "?l < 0xF0"
    using assms by simp_all
  have lead: "byte_of (char_of ?l) = ?l"
    using l by (simp add: byte_of_char_of)
  have snd_: "byte_of (char_of ?s) = ?s"
    by (simp add: byte_of_char_of)
  have e0: "0xA0 \<le> ?s" if "?l = 0xE0"
  proof -
    from that have "r div 4096 = 0" by simp
    then have "r < 64 * 64" using div_eqD [of r 4096 0] by simp
    then have "32 \<le> r div 64 \<and> r div 64 < 64"
      using assms(1) div_range [of 32 64 r 64] by simp
    then show ?thesis using second_E0 by simp
  qed
  have ed: "?s \<le> 0x9F" if "?l = 0xED"
  proof -
    from that have "r div 4096 = 13" by simp
    then have "13 * 4096 \<le> r \<and> r < 14 * 4096" using div_eqD [of r 4096 13] by simp
    then have "832 * 64 \<le> r \<and> r < 864 * 64"
      using assms(3) unfolding scalar_value_def by simp
    then have "832 \<le> r div 64 \<and> r div 64 < 864"
      using div_range [of 832 64 r 864] by simp
    then show ?thesis using second_ED by simp
  qed
  have enc: "utf8_encode r = [char_of ?l, char_of ?s, char_of (0x80 + r mod 64)]"
    using assms by (simp add: utf8_encode_def)
  have rng: "\<not> ?s < 0x80" "\<not> 0xBF < ?s" by simp_all
  consider "?l = 0xE0" | "0xE0 < ?l" "?l < 0xED" | "?l = 0xED" | "0xED < ?l"
    using l by linarith
  then show ?thesis
  proof cases
    case 1
    then show ?thesis using e0 rng
      by (simp add: enc rune_width_def lead snd_ first_def byte_of_char_of cont_byte)
  next
    case 2
    then show ?thesis using rng
      by (simp add: enc rune_width_def lead snd_ first_def byte_of_char_of cont_byte)
  next
    case 3
    then show ?thesis using ed rng
      by (simp add: enc rune_width_def lead snd_ first_def byte_of_char_of cont_byte)
  next
    case 4
    then show ?thesis using l rng
      by (simp add: enc rune_width_def lead snd_ first_def byte_of_char_of cont_byte)
  qed
qed

lemma rune_width_4:
  assumes "0x10000 \<le> r" "scalar_value r"
  shows "rune_width (utf8_encode r @ rest) = 4"
proof -
  let ?l = "0xF0 + r div 262144"
  let ?s = "0x80 + (r div 4096) mod 64"
  have r: "r < 0x110000"
    using assms unfolding scalar_value_def by simp
  have l: "?l < 256" "0xF0 \<le> ?l" "?l \<le> 0xF4"
    using r by simp_all
  have lead: "byte_of (char_of ?l) = ?l"
    using l by (simp add: byte_of_char_of)
  have snd_: "byte_of (char_of ?s) = ?s"
    by (simp add: byte_of_char_of)
  have f0: "0x90 \<le> ?s" if "?l = 0xF0"
  proof -
    from that have "r div 262144 = 0" by simp
    then have "r < 64 * 4096" using div_eqD [of r 262144 0] by simp
    then have "16 \<le> r div 4096 \<and> r div 4096 < 64"
      using assms(1) div_range [of 16 4096 r 64] by simp
    then show ?thesis using second_F0 by simp
  qed
  have f4: "?s \<le> 0x8F" if "?l = 0xF4"
  proof -
    from that have "r div 262144 = 4" by simp
    then have "256 * 4096 \<le> r" using div_eqD [of r 262144 4] by simp
    then have "256 \<le> r div 4096 \<and> r div 4096 < 272"
      using r div_range [of 256 4096 r 272] by simp
    then show ?thesis using second_F4 by simp
  qed
  have enc: "utf8_encode r = [char_of ?l, char_of ?s, char_of (0x80 + (r div 64) mod 64),
      char_of (0x80 + r mod 64)]"
    using assms by (simp add: utf8_encode_def)
  have rng: "\<not> ?s < 0x80" "\<not> 0xBF < ?s" by simp_all
  consider "?l = 0xF0" | "0xF0 < ?l" "?l < 0xF4" | "?l = 0xF4"
    using l by linarith
  then show ?thesis
  proof cases
    case 1
    then show ?thesis using f0 rng
      by (simp add: enc rune_width_def lead snd_ first_def byte_of_char_of cont_byte)
  next
    case 2
    then show ?thesis using rng
      by (simp add: enc rune_width_def lead snd_ first_def byte_of_char_of cont_byte)
  next
    case 3
    then show ?thesis using f4 rng
      by (simp add: enc rune_width_def lead snd_ first_def byte_of_char_of cont_byte)
  qed
qed

lemma length_utf8_encode:
  "length (utf8_encode r) = (if r < 0x80 then 1 else if r < 0x800 then 2 else if r < 0x10000 then 3 else 4)"
  by (simp add: utf8_encode_def)

lemma rune_width_encode:
  "scalar_value r \<Longrightarrow> rune_width (utf8_encode r @ rest) = length (utf8_encode r)"
  using rune_width_1 [of r rest] rune_width_2 [of r rest] rune_width_3 [of r rest]
    rune_width_4 [of r rest]
  by (simp add: length_utf8_encode not_less)

lemma RuneCount_encode:
  assumes "scalar_value r"
  shows "RuneCountInString (utf8_encode r @ rest) = Suc (RuneCountInString rest)"
proof -
  obtain c cs where e: "utf8_encode r = c # cs"
    by (cases "utf8_encode r") (simp_all add: utf8_encode_def split: if_splits)
  have w: "rune_width (c # cs @ rest) = Suc (length cs)"
    using rune_width_encode [OF assms, of rest] e by simp
  show ?thesis
    by (simp add: e w)
qed

lemma RuneCount_utf8_string:
  "list_all scalar_value rs \<Longrightarrow> RuneCountInString (utf8_string rs) = length rs"
  by (induction rs) (simp_all add: utf8_string_def RuneCount_encode)

subsection \<open>The error sink and the validation loop\<close>

lemma Errors_set_error: "Errors (set_error v field message) = (Errors v)(field \<mapsto> message)"
  by (simp add: set_error_def)

lemma set_error_eq_iff: "set_error v field m = set_error v field m' \<longleftrightarrow> m = m'"
proof
  assume "set_error v field m = set_error v field m'"
  then have "Errors (set_error v field m) field = Errors (set_error v field m') field"
    by simp
  then show "m = m'" by (simp add: Errors_set_error)
qed simp

lemma loop_all_pass:
  "\<forall>p\<in>set vs. fst (p field value) \<Longrightarrow> validations_loop vs field value v = (v, length vs)"
  by (induction vs) (auto split: prod.splits)

lemma loop_first_failure:
  assumes "\<forall>p\<in>set pre. fst (p field value)" and "\<not> fst (g field value)"
  shows "validations_loop (pre @ g # post) field value v
           = (set_error v field (snd (g field value)), Suc (length pre))"
  using assms by (induction pre) (auto split: prod.splits)

lemma dom_loop: "dom (Errors v) \<subseteq> dom (Errors (fst (validations_loop vs field value v)))"
  by (induction vs) (auto simp: Errors_set_error split: prod.splits)

lemma validExt_loop_iff: "validExt_loop L exts ext \<longleftrightarrow> (\<exists>a\<in>set exts. ToLower L a = ext)"
  by (induction exts) auto

lemma validType_loop_iff: "validType_loop ts t \<longleftrightarrow> (\<exists>a\<in>set ts. HasPrefix t a)"
  by (induction ts) auto

lemma dom_Image: "dom (Errors v) \<subseteq> dom (Errors (fst (snd (Image L v field config))))"
  by (auto simp: Image_def Let_def Errors_set_error split: option.splits open_result.splits)

lemma dom_do_call: "dom (Errors v) \<subseteq> dom (Errors (do_call L v c))"
proof (cases c)
  case (CallString field vs)
  then show ?thesis using dom_loop [of v vs field] by (simp add: String_def Let_def)
next
  case (CallInt field vs)
  then show ?thesis using dom_loop [of v vs field "GetValue v field"]
    by (auto simp: Int'_def Let_def Errors_set_error split: sum.splits)
next
  case (CallImage field config)
  then show ?thesis using dom_Image [of v L field config] by simp
qed (auto simp: SetValue_def SetFile_def Check_def Errors_set_error)

lemma dom_do_calls: "dom (Errors v) \<subseteq> dom (Errors (do_calls L v cs))"
proof (induction cs arbitrary: v)
  case Nil then show ?case by simp
next
  case (Cons c cs)
  have "dom (Errors v) \<subseteq> dom (Errors (do_call L v c))" by (rule dom_do_call)
  also have "\<dots> \<subseteq> dom (Errors (do_calls L (do_call L v c) cs))" by (rule Cons.IH)
  finally show ?case by simp
qed

subsection \<open>Worked evaluations\<close>

lemma ex_GetValue: "GetValue (SetValue New field value) field = value"
  by (simp add: GetValue_def SetValue_def New_def)

lemma ex_Required_jo: "Required exampleLib ''username'' ''jo'' = (True, [])"
  by (simp add: Required_def TrimSpace_def asciiSpace_def byte_of_def)

lemma ex_MinLength_jo:
  "MinLength 3 ''username'' ''jo'' = (False, ''This field must be at least 3 characters long'')"
  by code_simp

lemma ex_ParseInt_abc: "ParseInt ''abc'' = Inl ErrSyntax"
  by (simp add: ParseInt_def ParseUint_def byte_of_def)

lemma ex_ParseInt_25: "ParseInt ''25'' = Inr 25"
  by (simp add: ParseInt_def ParseUint_def byte_of_def maxUint64_def)

lemma ex_MinLength5:
  "MinLength 5 ''age'' ''abc'' = (False, ''This field must be at least 5 characters long'')"
  "MinLength 5 ''age'' ''25'' = (False, ''This field must be at least 5 characters long'')"
  by code_simp+

subsection \<open>String and Int\<close>

text \<open>
  C4. \<open>String\<close> returns the stored value whatever the validations say. When every
  validation passes, the validator is unchanged and each validation function has been
  called. When the validations are \<open>pre @ g # post\<close>, all of \<open>pre\<close> pass and \<open>g\<close>
  fails, the message of \<open>g\<close> is recorded under the field and the loop has called
  \<open>length pre + 1\<close> functions: none of \<open>post\<close> is evaluated.
\<close>

theorem String_first_failure:
  "fst (String v field vs) = GetValue v field \<and>
   ((\<forall>p\<in>set vs. fst (p field (GetValue v field))) \<longrightarrow>
      snd (String v field vs) = v \<and>
      snd (validations_loop vs field (GetValue v field) v) = length vs) \<and>
   ((\<forall>p\<in>set pre. fst (p field (GetValue v field))) \<and> \<not> fst (g field (GetValue v field)) \<longrightarrow>
      snd (String v field (pre @ g # post))
        = v\<lparr>Errors := (Errors v)(field \<mapsto> snd (g field (GetValue v field)))\<rparr> \<and>
      snd (validations_loop (pre @ g # post) field (GetValue v field) v) = Suc (length pre))"
  by (auto simp: String_def Let_def loop_all_pass loop_first_failure set_error_def)

theorem String_first_failure_witness:
  "String (SetValue New ''username'' ''jo'') ''username''
     [Required exampleLib, MinLength 3, MaxLength 1]
     = (''jo'',
        (SetValue New ''username'' ''jo'')\<lparr>Errors :=
           [''username'' \<mapsto> ''This field must be at least 3 characters long'']\<rparr>) \<and>
   snd (validations_loop [Required exampleLib, MinLength 3, MaxLength 1] ''username'' ''jo''
          (SetValue New ''username'' ''jo'')) = 2"
proof -
  let ?v = "SetValue New ''username'' ''jo''"
  have e: "Errors ?v = Map.empty"
    by (simp add: SetValue_def New_def)
  have h: "(\<forall>p\<in>set [Required exampleLib]. fst (p ''username'' (GetValue ?v ''username''))) \<and>
      \<not> fst (MinLength 3 ''username'' (GetValue ?v ''username''))"
    by (simp add: ex_GetValue ex_Required_jo ex_MinLength_jo)
  from String_first_failure [of ?v "''username''" "[Required exampleLib] @ MinLength 3 # [MaxLength 1]"
      "[Required exampleLib]" "MinLength 3" "[MaxLength 1]"] h
  show ?thesis
    by (simp add: ex_GetValue ex_MinLength_jo e prod_eq_iff)
qed

text \<open>
  C2. \<open>Int\<close> parses the stored value after the validations have run, whatever they
  recorded. When the parse fails, \<open>Int\<close> returns 0 and the field's error is
  \<open>This field must be a valid integer\<close>, written over the state the validations left.
  When the parse gives \<open>n\<close>, \<open>Int\<close> returns \<open>n\<close> and the error sink is the one the
  validations left (the one \<open>String\<close> gives for the same validations).
\<close>

theorem Int_parse_after_validations:
  "(ParseInt (GetValue v field) = Inl e \<longrightarrow>
      fst (Int' v field vs) = 0 \<and>
      Errors (snd (Int' v field vs)) field = Some ''This field must be a valid integer'' \<and>
      snd (Int' v field vs)
        = (snd (String v field vs))\<lparr>Errors :=
             (Errors (snd (String v field vs)))(field \<mapsto> ''This field must be a valid integer'')\<rparr>) \<and>
   (ParseInt (GetValue v field) = Inr n \<longrightarrow>
      fst (Int' v field vs) = n \<and> snd (Int' v field vs) = snd (String v field vs))"
  by (auto simp: Int'_def String_def Let_def set_error_def)

theorem Int_parse_after_validations_witness:
  "Errors (snd (String (SetValue New ''age'' ''abc'') ''age'' [MinLength 5])) ''age''
     = Some ''This field must be at least 5 characters long'' \<and>
   fst (Int' (SetValue New ''age'' ''abc'') ''age'' [MinLength 5]) = 0 \<and>
   Errors (snd (Int' (SetValue New ''age'' ''abc'') ''age'' [MinLength 5])) ''age''
     = Some ''This field must be a valid integer'' \<and>
   fst (Int' (SetValue New ''age'' ''25'') ''age'' [MinLength 5]) = 25 \<and>
   Errors (snd (Int' (SetValue New ''age'' ''25'') ''age'' [MinLength 5])) ''age''
     = Some ''This field must be at least 5 characters long''"
proof -
  have a: "ParseInt (GetValue (SetValue New ''age'' ''abc'') ''age'') = Inl ErrSyntax"
    by (simp add: ex_GetValue ex_ParseInt_abc)
  have b: "ParseInt (GetValue (SetValue New ''age'' ''25'') ''age'') = Inr 25"
    by (simp add: ex_GetValue ex_ParseInt_25)
  have s: "Errors (snd (String (SetValue New ''age'' x) ''age'' [MinLength 5])) ''age''
      = (if fst (MinLength 5 ''age'' x) then None else Some (snd (MinLength 5 ''age'' x)))" for x
    by (simp add: String_def Let_def GetValue_def set_error_def SetValue_def New_def
        split: prod.splits)
  from Int_parse_after_validations [of "SetValue New ''age'' ''abc''" "''age''" ErrSyntax
      "[MinLength 5]"]
    Int_parse_after_validations [of "SetValue New ''age'' ''25''" "''age''" _ "[MinLength 5]" 25]
    a b
  show ?thesis
    by (simp add: s ex_MinLength5)
qed

text \<open>
  C10. For a field with no stored value \<open>GetValue\<close> is the empty string, so
  \<open>String\<close> and \<open>Int\<close> validate the empty string; \<open>Int\<close> then returns 0 and records
  \<open>This field must be a valid integer\<close>, with or without validations. For a field
  with no stored file \<open>GetFile\<close> is nil and \<open>Image\<close> records
  \<open>No file was uploaded\<close>, returns nil and does not touch a file.
\<close>

theorem absent_field:
  "(values' v field = None \<longrightarrow>
      GetValue v field = [] \<and>
      String v field vs = ([], fst (validations_loop vs field [] v)) \<and>
      fst (Int' v field vs) = 0 \<and>
      Errors (snd (Int' v field vs)) field = Some ''This field must be a valid integer'' \<and>
      Int' v field [] = (0, v\<lparr>Errors := (Errors v)(field \<mapsto> ''This field must be a valid integer'')\<rparr>)) \<and>
   (files v field = None \<longrightarrow>
      GetFile v field = None \<and>
      Image L v field config
        = (None, v\<lparr>Errors := (Errors v)(field \<mapsto> ''No file was uploaded'')\<rparr>, []))"
  by (auto simp: GetValue_def GetFile_def String_def Int'_def Image_def Let_def ParseInt_def
      set_error_def)

theorem absent_field_witness:
  "GetValue New ''age'' = [] \<and> String New ''age'' [] = ([], New) \<and>
   Int' New ''age'' [] = (0, New\<lparr>Errors := [''age'' \<mapsto> ''This field must be a valid integer'']\<rparr>) \<and>
   GetFile New ''age'' = None \<and>
   Image exampleLib New ''age'' (ImageConfig exampleLib MB [])
     = (None, New\<lparr>Errors := [''age'' \<mapsto> ''No file was uploaded'']\<rparr>, [])"
proof -
  have "values' New ''age'' = None" "files New ''age'' = None" "Errors New = Map.empty"
    by (simp_all add: New_def)
  with absent_field [where v = New and field = "''age''" and vs = "[]" and L = exampleLib
      and config = "ImageConfig exampleLib MB []"]
  show ?thesis by simp
qed

subsection \<open>The error sink only grows\<close>

text \<open>
  C9. Over any sequence of calls of \<open>SetValue\<close>, \<open>SetFile\<close>, \<open>String\<close>, \<open>Int\<close>,
  \<open>Image\<close>, \<open>Check\<close> and \<open>Valid\<close>, every field that has an error keeps one, so a
  validator that is not valid stays not valid.
\<close>

theorem error_sink_only_grows:
  "dom (Errors v) \<subseteq> dom (Errors (do_calls L v cs)) \<and>
   (\<not> Valid v \<longrightarrow> \<not> Valid (do_calls L v cs))"
  using dom_do_calls [of v L cs] by (auto simp: Valid_def)

theorem error_sink_only_grows_witness:
  "\<not> Valid (Check New False ''age'' ''too young'') \<and>
   \<not> Valid (do_calls exampleLib (Check New False ''age'' ''too young'')
      [CallSetValue ''age'' ''25'', CallInt ''age'' [], CallString ''age'' [Required exampleLib],
       CallImage ''avatar'' (ImageConfig exampleLib MB []), CallValid])"
proof -
  have "\<not> Valid (Check New False ''age'' ''too young'')"
    by (simp add: Valid_def Check_def set_error_def New_def)
  with error_sink_only_grows [of "Check New False ''age'' ''too young''" exampleLib
      "[CallSetValue ''age'' ''25'', CallInt ''age'' [], CallString ''age'' [Required exampleLib],
       CallImage ''avatar'' (ImageConfig exampleLib MB []), CallValid]"]
  show ?thesis by blast
qed

subsection \<open>Image\<close>

lemma msg_distinct:
  "size_message n \<noteq> ''No file was uploaded''"
  "size_message n \<noteq> ext_message es"
  "''No file was uploaded'' \<noteq> size_message n"
  "ext_message es \<noteq> size_message n"
  "type_message ts \<noteq> ''Could not read file content''"
  "''Could not read file content'' \<noteq> type_message ts"
  by (simp_all add: size_message_def ext_message_def type_message_def)

lemma Image_unfold:
  "Image L v field c =
     (case GetFile v field of
        None \<Rightarrow> (None, set_error v field ''No file was uploaded'', [])
      | Some file \<Rightarrow>
          if size_exceeded c file then (None, set_error v field (size_message (MaxSize c)), [])
          else if ext_rejected L c file then
            (None, set_error v field (ext_message (AllowedExts c)), [])
          else
            (case Open file of
               OpenFailed \<Rightarrow> (None, set_error v field ''Could not process file'', [EvOpen])
             | Opened data err \<Rightarrow>
                 if err = Some ReadFailed then
                   (None, set_error v field ''Could not read file content'',
                    [EvOpen, EvRead, EvClose])
                 else if AllowedTypes c \<noteq> [] \<and>
                         \<not> validType_loop (AllowedTypes c)
                              (DetectContentType L (read_buffer data)) then
                   (None, set_error v field (type_message (AllowedTypes c)),
                    [EvOpen, EvRead, EvClose])
                 else (Some file, v, [EvOpen, EvRead, EvClose])))"
  by (simp add: Image_def Let_def size_exceeded_def ext_rejected_def
      split: option.splits open_result.splits)

lemma ex_GetFile: "GetFile (SetFile New field (Some file)) field = Some file"
  by (simp add: GetFile_def SetFile_def)

lemma ex_Errors_SetFile: "Errors (SetFile New field file) = Map.empty"
  by (simp add: SetFile_def New_def)

lemma ex_ImageConfig:
  "MaxSize (ImageConfig exampleLib MB []) = 1048576"
  "AllowedTypes (ImageConfig exampleLib MB [])
     = [''image/jpeg'', ''image/jpeg'', ''image/png'', ''image/gif'', ''image/webp'']"
  "AllowedExts (ImageConfig exampleLib MB [])
     = [''.jpg'', ''.jpeg'', ''.jpg'', ''.jpeg'', ''.png'', ''.gif'', ''.webp'']"
  by code_simp+

lemma ex_ext_jpg:
  "\<not> (\<forall>a\<in>set [''.jpg'', ''.jpeg'', ''.jpg'', ''.jpeg'', ''.png'', ''.gif'', ''.webp''].
        ToLower exampleLib a \<noteq> ToLower exampleLib (Ext ''test.jpg''))"
  by code_simp

lemma ex_ext_txt:
  "\<forall>a\<in>set [''.jpg'', ''.jpeg'', ''.jpg'', ''.jpeg'', ''.png'', ''.gif'', ''.webp''].
        ToLower exampleLib a \<noteq> ToLower exampleLib (Ext ''test.txt'')"
  by code_simp

lemma ex_sniff_jpeg:
  "\<not> (\<forall>a\<in>set [''image/jpeg'', ''image/jpeg'', ''image/png'', ''image/gif'', ''image/webp''].
        \<not> HasPrefix (DetectContentType exampleLib (read_buffer
        [0xFF, 0xD8, 0xFF, 0xE0, 0x00, 0x10, 0x4A, 0x46, 0x49, 0x46, 0x00, 0x01,
         0x01, 0x01, 0x00, 0x48, 0x00, 0x48, 0x00, 0x00, 0xFF, 0xDB, 0x00, 0x43,
         0x00, 0xFF, 0xD9])) a)"
  by code_simp

lemma ex_messages:
  "FormatInt 1048576 = ''1048576''"
  "''Invalid file extension. Allowed: '' @
     Join [''.jpg'', ''.jpeg'', ''.jpg'', ''.jpeg'', ''.png'', ''.gif'', ''.webp''] '', ''
     = ''Invalid file extension. Allowed: .jpg, .jpeg, .jpg, .jpeg, .png, .gif, .webp''"
  by code_simp+

lemma ex_ImageConfig_bmp:
  "ImageConfig exampleLib MB [''bmp''] = \<lparr>MaxSize = 1048576, AllowedTypes = [], AllowedExts = []\<rparr>"
  by code_simp

text \<open>
  C3. \<open>Image\<close> checks in a fixed order: the stored file (\<open>No file was uploaded\<close>),
  the size, the extension, then the content (open, read, sniffed type). The first check
  that fails decides the result: its message is recorded, nil is returned, and the later
  checks play no part; a failure before the content check leaves the file unopened.
  When every check passes, the stored file is returned and the validator is unchanged.
\<close>

theorem Image_check_order:
  "(GetFile v field = None \<longrightarrow>
      Image L v field c
        = (None, v\<lparr>Errors := (Errors v)(field \<mapsto> ''No file was uploaded'')\<rparr>, [])) \<and>
   (GetFile v field = Some file \<longrightarrow>
      Image L v field c =
        (if 0 < MaxSize c \<and> MaxSize c < Size file then
           (None,
            v\<lparr>Errors := (Errors v)(field \<mapsto>
               ''File size exceeds maximum limit of '' @ FormatInt (MaxSize c) @ '' bytes'')\<rparr>,
            [])
         else if AllowedExts c \<noteq> [] \<and>
                 (\<forall>a\<in>set (AllowedExts c). ToLower L a \<noteq> ToLower L (Ext (Filename file))) then
           (None,
            v\<lparr>Errors := (Errors v)(field \<mapsto>
               ''Invalid file extension. Allowed: '' @ Join (AllowedExts c) '', '')\<rparr>,
            [])
         else
           (case Open file of
              OpenFailed \<Rightarrow>
                (None, v\<lparr>Errors := (Errors v)(field \<mapsto> ''Could not process file'')\<rparr>, [EvOpen])
            | Opened data err \<Rightarrow>
                if err = Some ReadFailed then
                  (None, v\<lparr>Errors := (Errors v)(field \<mapsto> ''Could not read file content'')\<rparr>,
                   [EvOpen, EvRead, EvClose])
                else if AllowedTypes c \<noteq> [] \<and>
                        (\<forall>a\<in>set (AllowedTypes c).
                           \<not> HasPrefix (DetectContentType L (read_buffer data)) a) then
                  (None,
                   v\<lparr>Errors := (Errors v)(field \<mapsto>
                      ''Invalid file type. Allowed: '' @ Join (AllowedTypes c) '', '')\<rparr>,
                   [EvOpen, EvRead, EvClose])
                else (Some file, v, [EvOpen, EvRead, EvClose]))))"
  by (simp add: Image_def Let_def validExt_loop_iff validType_loop_iff set_error_def
      size_message_def ext_message_def type_message_def split: open_result.splits)

theorem Image_check_order_witness:
  "Image exampleLib (SetFile New ''avatar'' (Some exampleJPEG)) ''avatar''
     (ImageConfig exampleLib MB [])
     = (Some exampleJPEG, SetFile New ''avatar'' (Some exampleJPEG), [EvOpen, EvRead, EvClose]) \<and>
   Image exampleLib (SetFile New ''avatar'' (Some exampleTXT)) ''avatar''
     (ImageConfig exampleLib MB [])
     = (None,
        (SetFile New ''avatar'' (Some exampleTXT))\<lparr>Errors := [''avatar'' \<mapsto>
           ''Invalid file extension. Allowed: .jpg, .jpeg, .jpg, .jpeg, .png, .gif, .webp'']\<rparr>,
        []) \<and>
   Image exampleLib (SetFile New ''avatar'' (Some (exampleTXT\<lparr>Size := 2097152\<rparr>))) ''avatar''
     (ImageConfig exampleLib MB [])
     = (None,
        (SetFile New ''avatar'' (Some (exampleTXT\<lparr>Size := 2097152\<rparr>)))\<lparr>Errors := [''avatar'' \<mapsto>
           ''File size exceeds maximum limit of 1048576 bytes'']\<rparr>,
        [])"
proof -
  let ?c = "ImageConfig exampleLib MB []"
  have 1: "Image exampleLib (SetFile New ''avatar'' (Some exampleJPEG)) ''avatar'' ?c
     = (Some exampleJPEG, SetFile New ''avatar'' (Some exampleJPEG), [EvOpen, EvRead, EvClose])"
    using Image_check_order [of "SetFile New ''avatar'' (Some exampleJPEG)" "''avatar''"
        exampleLib ?c exampleJPEG] ex_ext_jpg ex_sniff_jpeg
    by (simp add: ex_GetFile ex_ImageConfig exampleJPEG_def)
  have 2: "Image exampleLib (SetFile New ''avatar'' (Some exampleTXT)) ''avatar'' ?c
     = (None,
        (SetFile New ''avatar'' (Some exampleTXT))\<lparr>Errors := [''avatar'' \<mapsto>
           ''Invalid file extension. Allowed: .jpg, .jpeg, .jpg, .jpeg, .png, .gif, .webp'']\<rparr>,
        [])"
    using Image_check_order [of "SetFile New ''avatar'' (Some exampleTXT)" "''avatar''"
        exampleLib ?c exampleTXT] ex_ext_txt
    by (simp add: ex_GetFile ex_ImageConfig exampleTXT_def ex_Errors_SetFile ex_messages)
  have 3: "Image exampleLib (SetFile New ''avatar'' (Some (exampleTXT\<lparr>Size := 2097152\<rparr>))) ''avatar'' ?c
     = (None,
        (SetFile New ''avatar'' (Some (exampleTXT\<lparr>Size := 2097152\<rparr>)))\<lparr>Errors := [''avatar'' \<mapsto>
           ''File size exceeds maximum limit of 1048576 bytes'']\<rparr>,
        [])"
    using Image_check_order [of "SetFile New ''avatar'' (Some (exampleTXT\<lparr>Size := 2097152\<rparr>))"
        "''avatar''" exampleLib ?c "exampleTXT\<lparr>Size := 2097152\<rparr>"]
    by (simp add: ex_GetFile ex_ImageConfig exampleTXT_def ex_Errors_SetFile ex_messages)
  show ?thesis using 1 2 3 by simp
qed

text \<open>
  C5. \<open>Image\<close> gives the size failure, with the message
  \<open>File size exceeds maximum limit of MaxSize bytes\<close>, exactly when a file is stored,
  \<open>MaxSize\<close> is positive and the file's size is greater than \<open>MaxSize\<close>; a size
  equal to \<open>MaxSize\<close> is not a failure. With \<open>MaxSize\<close> zero or negative \<open>Image\<close>
  behaves as with \<open>MaxSize = 0\<close>: the size is not checked.
\<close>

theorem Image_size_check:
  "(Image L v field c
      = (None,
         v\<lparr>Errors := (Errors v)(field \<mapsto>
            ''File size exceeds maximum limit of '' @ FormatInt (MaxSize c) @ '' bytes'')\<rparr>,
         [])
    \<longleftrightarrow> (\<exists>file. GetFile v field = Some file \<and> 0 < MaxSize c \<and> MaxSize c < Size file)) \<and>
   (MaxSize c \<le> 0 \<longrightarrow> Image L v field c = Image L v field (c\<lparr>MaxSize := 0\<rparr>))"
proof -
  have m: "v\<lparr>Errors := (Errors v)(field \<mapsto>
            ''File size exceeds maximum limit of '' @ FormatInt (MaxSize c) @ '' bytes'')\<rparr>
      = set_error v field (size_message (MaxSize c))"
    by (simp add: set_error_def size_message_def)
  have a: "Image L v field c = (None, set_error v field (size_message (MaxSize c)), [])
      \<longleftrightarrow> (\<exists>file. GetFile v field = Some file \<and> size_exceeded c file)"
    by (auto simp: Image_unfold set_error_eq_iff msg_distinct
        split: option.splits open_result.splits)
  have b: "MaxSize c \<le> 0 \<Longrightarrow> Image L v field c = Image L v field (c\<lparr>MaxSize := 0\<rparr>)"
    by (simp add: Image_def Let_def split: option.splits open_result.splits)
  show ?thesis
    using a b unfolding m size_exceeded_def by simp
qed

theorem Image_size_check_witness:
  "Image exampleLib (SetFile New ''avatar'' (Some (exampleJPEG\<lparr>Size := 1048577\<rparr>))) ''avatar''
     (ImageConfig exampleLib MB [])
     = (None,
        (SetFile New ''avatar'' (Some (exampleJPEG\<lparr>Size := 1048577\<rparr>)))\<lparr>Errors :=
           [''avatar'' \<mapsto> ''File size exceeds maximum limit of 1048576 bytes'']\<rparr>,
        []) \<and>
   Image exampleLib (SetFile New ''avatar'' (Some (exampleJPEG\<lparr>Size := 1048576\<rparr>))) ''avatar''
     (ImageConfig exampleLib MB [])
     \<noteq> (None,
        (SetFile New ''avatar'' (Some (exampleJPEG\<lparr>Size := 1048576\<rparr>)))\<lparr>Errors :=
           [''avatar'' \<mapsto> ''File size exceeds maximum limit of 1048576 bytes'']\<rparr>,
        []) \<and>
   Image exampleLib (SetFile New ''avatar'' (Some (exampleJPEG\<lparr>Size := 1048577\<rparr>))) ''avatar''
     ((ImageConfig exampleLib MB [])\<lparr>MaxSize := - 1\<rparr>)
     = Image exampleLib (SetFile New ''avatar'' (Some (exampleJPEG\<lparr>Size := 1048577\<rparr>))) ''avatar''
     ((ImageConfig exampleLib MB [])\<lparr>MaxSize := 0\<rparr>)"
proof -
  let ?c = "ImageConfig exampleLib MB []"
  from Image_size_check [of exampleLib "SetFile New ''avatar'' (Some (exampleJPEG\<lparr>Size := 1048577\<rparr>))"
      "''avatar''" ?c]
    Image_size_check [of exampleLib "SetFile New ''avatar'' (Some (exampleJPEG\<lparr>Size := 1048576\<rparr>))"
      "''avatar''" ?c]
    Image_size_check [of exampleLib "SetFile New ''avatar'' (Some (exampleJPEG\<lparr>Size := 1048577\<rparr>))"
      "''avatar''" "?c\<lparr>MaxSize := - 1\<rparr>"]
  show ?thesis
    by (simp add: ex_GetFile ex_ImageConfig ex_Errors_SetFile ex_messages)
qed

text \<open>
  C1, as the code has it. \<open>Image\<close> opens the file exactly when a file is stored and
  the size and extension checks pass, and what it does to the file does not depend on
  \<open>AllowedTypes\<close>. \<open>Could not process file\<close> is the result exactly when those checks
  pass and the open fails; \<open>Could not read file content\<close> exactly when they pass, the
  open succeeds and the read fails with an error other than end of file. An empty
  \<open>AllowedTypes\<close> only leaves out the comparison of the sniffed type: if the file was
  read, it is returned.
\<close>

theorem Image_opens_whatever_types:
  "(snd (snd (Image L v field c)) \<noteq> [] \<longleftrightarrow>
      (\<exists>file. GetFile v field = Some file \<and> \<not> size_exceeded c file \<and> \<not> ext_rejected L c file)) \<and>
   snd (snd (Image L v field (c\<lparr>AllowedTypes := ts\<rparr>))) = snd (snd (Image L v field c)) \<and>
   (Image L v field c
      = (None, v\<lparr>Errors := (Errors v)(field \<mapsto> ''Could not process file'')\<rparr>, [EvOpen])
    \<longleftrightarrow> (\<exists>file. GetFile v field = Some file \<and> \<not> size_exceeded c file \<and>
          \<not> ext_rejected L c file \<and> Open file = OpenFailed)) \<and>
   (Image L v field c
      = (None, v\<lparr>Errors := (Errors v)(field \<mapsto> ''Could not read file content'')\<rparr>,
         [EvOpen, EvRead, EvClose])
    \<longleftrightarrow> (\<exists>file data. GetFile v field = Some file \<and> \<not> size_exceeded c file \<and>
          \<not> ext_rejected L c file \<and> Open file = Opened data (Some ReadFailed))) \<and>
   (AllowedTypes c = [] \<and> GetFile v field = Some file \<and> \<not> size_exceeded c file \<and>
    \<not> ext_rejected L c file \<and> Open file = Opened data err \<and> err \<noteq> Some ReadFailed \<longrightarrow>
      Image L v field c = (Some file, v, [EvOpen, EvRead, EvClose]))"
proof -
  have m: "v\<lparr>Errors := (Errors v)(field \<mapsto> x)\<rparr> = set_error v field x" for x
    by (simp add: set_error_def)
  have t: "size_exceeded (c\<lparr>AllowedTypes := ts\<rparr>) = size_exceeded c"
    "ext_rejected L (c\<lparr>AllowedTypes := ts\<rparr>) = ext_rejected L c"
    by (simp_all add: size_exceeded_def ext_rejected_def fun_eq_iff)
  have 1: "snd (snd (Image L v field c)) \<noteq> [] \<longleftrightarrow>
      (\<exists>file. GetFile v field = Some file \<and> \<not> size_exceeded c file \<and> \<not> ext_rejected L c file)"
    by (auto simp: Image_unfold split: option.splits open_result.splits)
  have 2: "snd (snd (Image L v field (c\<lparr>AllowedTypes := ts\<rparr>))) = snd (snd (Image L v field c))"
    by (simp add: Image_unfold t split: option.splits open_result.splits)
  have 3: "Image L v field c = (None, set_error v field ''Could not process file'', [EvOpen])
    \<longleftrightarrow> (\<exists>file. GetFile v field = Some file \<and> \<not> size_exceeded c file \<and>
          \<not> ext_rejected L c file \<and> Open file = OpenFailed)"
    by (auto simp: Image_unfold split: option.splits open_result.splits)
  have 4: "Image L v field c
      = (None, set_error v field ''Could not read file content'', [EvOpen, EvRead, EvClose])
    \<longleftrightarrow> (\<exists>file data. GetFile v field = Some file \<and> \<not> size_exceeded c file \<and>
          \<not> ext_rejected L c file \<and> Open file = Opened data (Some ReadFailed))"
    by (auto simp: Image_unfold set_error_eq_iff msg_distinct
        split: option.splits open_result.splits)
  have 5: "AllowedTypes c = [] \<and> GetFile v field = Some file \<and> \<not> size_exceeded c file \<and>
    \<not> ext_rejected L c file \<and> Open file = Opened data err \<and> err \<noteq> Some ReadFailed \<longrightarrow>
      Image L v field c = (Some file, v, [EvOpen, EvRead, EvClose])"
    by (simp add: Image_unfold)
  show ?thesis
    unfolding m using 1 2 3 4 5 by blast
qed

theorem Image_opens_whatever_types_witness:
  "GetFile (SetFile New ''avatar'' (Some (exampleJPEG\<lparr>Open := OpenFailed\<rparr>))) ''avatar''
     = Some (exampleJPEG\<lparr>Open := OpenFailed\<rparr>) \<and>
   \<not> size_exceeded (ImageConfig exampleLib MB [''bmp'']) (exampleJPEG\<lparr>Open := OpenFailed\<rparr>) \<and>
   \<not> ext_rejected exampleLib (ImageConfig exampleLib MB [''bmp''])
        (exampleJPEG\<lparr>Open := OpenFailed\<rparr>) \<and>
   Image exampleLib (SetFile New ''avatar'' (Some (exampleJPEG\<lparr>Open := OpenFailed\<rparr>))) ''avatar''
     (ImageConfig exampleLib MB [''bmp''])
     = (None,
        (SetFile New ''avatar'' (Some (exampleJPEG\<lparr>Open := OpenFailed\<rparr>)))\<lparr>Errors :=
           [''avatar'' \<mapsto> ''Could not process file'']\<rparr>,
        [EvOpen]) \<and>
   snd (snd (Image exampleLib (SetFile New ''avatar'' (Some (exampleJPEG\<lparr>Open := OpenFailed\<rparr>)))
     ''avatar'' (ImageConfig exampleLib MB [''bmp'']))) \<noteq> []"
proof -
  let ?f = "exampleJPEG\<lparr>Open := OpenFailed\<rparr>"
  let ?v = "SetFile New ''avatar'' (Some ?f)"
  let ?c = "ImageConfig exampleLib MB [''bmp'']"
  have g: "GetFile ?v ''avatar'' = Some ?f" by (rule ex_GetFile)
  have s: "\<not> size_exceeded ?c ?f"
    by (simp add: size_exceeded_def ex_ImageConfig_bmp exampleJPEG_def)
  have e: "\<not> ext_rejected exampleLib ?c ?f"
    by (simp add: ext_rejected_def ex_ImageConfig_bmp)
  have "\<exists>file. GetFile ?v ''avatar'' = Some file \<and> \<not> size_exceeded ?c file \<and>
      \<not> ext_rejected exampleLib ?c file \<and> Open file = OpenFailed"
    using g s e by simp
  moreover have "\<exists>file. GetFile ?v ''avatar'' = Some file \<and> \<not> size_exceeded ?c file \<and>
      \<not> ext_rejected exampleLib ?c file"
    using g s e by simp
  ultimately show ?thesis
    using Image_opens_whatever_types [of exampleLib ?v "''avatar''" ?c] g s e
    by (simp add: ex_Errors_SetFile)
qed

text \<open>
  C1, as stated, fails: with a configuration whose \<open>AllowedTypes\<close> is empty (the one
  \<open>ImageConfig\<close> builds from the unknown format \<open>bmp\<close>), \<open>Image\<close> opens the file,
  and records \<open>Could not process file\<close> when the open fails and
  \<open>Could not read file content\<close> when the read fails.
\<close>

theorem Image_opens_with_no_allowed_types:
  "AllowedTypes (ImageConfig exampleLib MB [''bmp'']) = [] \<and>
   Image exampleLib (SetFile New ''avatar'' (Some (exampleJPEG\<lparr>Open := OpenFailed\<rparr>))) ''avatar''
     (ImageConfig exampleLib MB [''bmp''])
     = (None,
        (SetFile New ''avatar'' (Some (exampleJPEG\<lparr>Open := OpenFailed\<rparr>)))\<lparr>Errors :=
           [''avatar'' \<mapsto> ''Could not process file'']\<rparr>,
        [EvOpen]) \<and>
   Image exampleLib (SetFile New ''avatar'' (Some (exampleJPEG\<lparr>Open := Opened [] (Some ReadFailed)\<rparr>)))
     ''avatar'' (ImageConfig exampleLib MB [''bmp''])
     = (None,
        (SetFile New ''avatar'' (Some (exampleJPEG\<lparr>Open := Opened [] (Some ReadFailed)\<rparr>)))\<lparr>Errors :=
           [''avatar'' \<mapsto> ''Could not read file content'']\<rparr>,
        [EvOpen, EvRead, EvClose]) \<and>
   snd (snd (Image exampleLib (SetFile New ''avatar'' (Some exampleJPEG)) ''avatar''
     (ImageConfig exampleLib MB [''bmp'']))) = [EvOpen, EvRead, EvClose]"
  by (simp add: ex_ImageConfig_bmp Image_def ex_GetFile exampleJPEG_def set_error_def
      ex_Errors_SetFile)

subsection \<open>ImageConfig\<close>

lemma ImageConfig_loop_eq:
  "ImageConfig_loop L fs m e
     = (m @ concat (map (\<lambda>f. registry_types (ToLower L f)) fs),
        e @ concat (map (\<lambda>f. registry_exts (ToLower L f)) fs))"
  by (induction fs arbitrary: m e)
    (simp_all add: Let_def registry_types_def registry_exts_def MimeJPEG_def MimePNG_def
      MimeGIF_def MimeWEBP_def)

lemma ImageConfig_nonempty:
  "formats \<noteq> [] \<Longrightarrow>
   ImageConfig L maxSize formats
     = \<lparr>MaxSize = maxSize,
        AllowedTypes = concat (map (\<lambda>f. registry_types (ToLower L f)) formats),
        AllowedExts = concat (map (\<lambda>f. registry_exts (ToLower L f)) formats)\<rparr>"
  by (simp add: ImageConfig_def ImageConfig_loop_eq)

text \<open>
  C6. \<open>ImageConfig\<close> with no formats is \<open>ImageConfig\<close> with jpg, jpeg, png, gif and
  webp. Otherwise its MIME types and extensions are those the format table gives for the
  lower-cased names, in the order of the names, and \<open>MaxSize\<close> is the given size. A
  name the table does not list contributes nothing: leaving it out gives the same
  configuration (as long as a name remains). Two ASCII names that differ only in case give
  the same configuration.
\<close>

theorem ImageConfig_expansion:
  "ImageConfig L maxSize [] = ImageConfig L maxSize [''jpg'', ''jpeg'', ''png'', ''gif'', ''webp''] \<and>
   (formats \<noteq> [] \<longrightarrow>
      ImageConfig L maxSize formats
        = \<lparr>MaxSize = maxSize,
           AllowedTypes = concat (map (\<lambda>f. registry_types (ToLower L f)) formats),
           AllowedExts = concat (map (\<lambda>f. registry_exts (ToLower L f)) formats)\<rparr>) \<and>
   (ToLower L f \<notin> {''jpg'', ''jpeg'', ''png'', ''gif'', ''webp''} \<longrightarrow>
      registry_types (ToLower L f) = [] \<and> registry_exts (ToLower L f) = [] \<and>
      (xs @ ys \<noteq> [] \<longrightarrow> ImageConfig L maxSize (xs @ f # ys) = ImageConfig L maxSize (xs @ ys))) \<and>
   (isASCII a \<and> isASCII b \<and> map lowerASCII a = map lowerASCII b \<longrightarrow>
      ImageConfig L maxSize (xs @ a # ys) = ImageConfig L maxSize (xs @ b # ys))"
proof -
  have 1: "ImageConfig L maxSize []
      = ImageConfig L maxSize [''jpg'', ''jpeg'', ''png'', ''gif'', ''webp'']"
    by (simp add: ImageConfig_def DefaultImageFormats_def)
  have 3: "registry_types (ToLower L f) = [] \<and> registry_exts (ToLower L f) = [] \<and>
      (xs @ ys \<noteq> [] \<longrightarrow> ImageConfig L maxSize (xs @ f # ys) = ImageConfig L maxSize (xs @ ys))"
    if "ToLower L f \<notin> {''jpg'', ''jpeg'', ''png'', ''gif'', ''webp''}"
  proof -
    have r: "registry_types (ToLower L f) = []" "registry_exts (ToLower L f) = []"
      using that by (simp_all add: registry_types_def registry_exts_def)
    show ?thesis
      using r ImageConfig_nonempty [of "xs @ f # ys" L maxSize]
        ImageConfig_nonempty [of "xs @ ys" L maxSize]
      by simp
  qed
  have 4: "ImageConfig L maxSize (xs @ a # ys) = ImageConfig L maxSize (xs @ b # ys)"
    if "isASCII a \<and> isASCII b \<and> map lowerASCII a = map lowerASCII b"
    using that ImageConfig_nonempty [of "xs @ a # ys" L maxSize]
      ImageConfig_nonempty [of "xs @ b # ys" L maxSize]
    by (simp add: ToLower_def)
  show ?thesis
    using 1 3 4 ImageConfig_nonempty [of formats L maxSize] by blast
qed

theorem ImageConfig_expansion_witness:
  "ImageConfig exampleLib (5 * MB) [''JPG'', ''bmp'', ''Png'']
     = \<lparr>MaxSize = 5242880, AllowedTypes = [''image/jpeg'', ''image/png''],
        AllowedExts = [''.jpg'', ''.jpeg'', ''.png'']\<rparr> \<and>
   ImageConfig exampleLib (5 * MB) [''JPG'', ''bmp'', ''Png'']
     = ImageConfig exampleLib (5 * MB) [''JPG'', ''Png''] \<and>
   ImageConfig exampleLib (5 * MB) [''JPG'', ''bmp'', ''Png'']
     = ImageConfig exampleLib (5 * MB) [''jpg'', ''bmp'', ''Png'']"
proof -
  have l: "ToLower exampleLib ''JPG'' = ''jpg''" "ToLower exampleLib ''bmp'' = ''bmp''"
    "ToLower exampleLib ''Png'' = ''png''"
    by code_simp+
  have a: "isASCII ''JPG'' \<and> isASCII ''jpg'' \<and> map lowerASCII ''JPG'' = map lowerASCII ''jpg''"
    by code_simp
  have m: "5 * MB = 5242880" by (simp add: MB_def KB_def)
  note t1 = ImageConfig_expansion [where L = exampleLib and maxSize = "5 * MB"
      and formats = "[''JPG'', ''bmp'', ''Png'']" and f = "''bmp''" and xs = "[''JPG'']"
      and ys = "[''Png'']" and a = "''bmp''" and b = "''bmp''"]
  note t2 = ImageConfig_expansion [where L = exampleLib and maxSize = "5 * MB"
      and formats = "[''JPG'', ''bmp'', ''Png'']" and f = "''bmp''" and xs = "[]"
      and ys = "[''bmp'', ''Png'']" and a = "''JPG''" and b = "''jpg''"]
  have u: "ToLower exampleLib ''bmp'' \<notin> {''jpg'', ''jpeg'', ''png'', ''gif'', ''webp''}"
    by (simp add: l)
  have n: "[''JPG'', ''bmp'', ''Png''] \<noteq> []" "[''JPG''] @ [''Png''] \<noteq> []"
    by simp_all
  have "ImageConfig exampleLib (5 * MB) [''JPG'', ''bmp'', ''Png'']
     = \<lparr>MaxSize = 5 * MB,
        AllowedTypes = concat (map (\<lambda>f. registry_types (ToLower exampleLib f))
          [''JPG'', ''bmp'', ''Png'']),
        AllowedExts = concat (map (\<lambda>f. registry_exts (ToLower exampleLib f))
          [''JPG'', ''bmp'', ''Png''])\<rparr>"
    using t1 n(1) by blast
  then have 1: "ImageConfig exampleLib (5 * MB) [''JPG'', ''bmp'', ''Png'']
     = \<lparr>MaxSize = 5242880, AllowedTypes = [''image/jpeg'', ''image/png''],
        AllowedExts = [''.jpg'', ''.jpeg'', ''.png'']\<rparr>"
    by (simp add: l m registry_types_def registry_exts_def)
  have "ImageConfig exampleLib (5 * MB) ([''JPG''] @ ''bmp'' # [''Png''])
     = ImageConfig exampleLib (5 * MB) ([''JPG''] @ [''Png''])"
    using t1 u n(2) by blast
  then have 2: "ImageConfig exampleLib (5 * MB) [''JPG'', ''bmp'', ''Png'']
     = ImageConfig exampleLib (5 * MB) [''JPG'', ''Png'']"
    by simp
  have "ImageConfig exampleLib (5 * MB) ([] @ ''JPG'' # [''bmp'', ''Png''])
     = ImageConfig exampleLib (5 * MB) ([] @ ''jpg'' # [''bmp'', ''Png''])"
    using t2 a by blast
  then have 3: "ImageConfig exampleLib (5 * MB) [''JPG'', ''bmp'', ''Png'']
     = ImageConfig exampleLib (5 * MB) [''jpg'', ''bmp'', ''Png'']"
    by simp
  show ?thesis using 1 2 3 by blast
qed

subsection \<open>Boolean\<close>

lemma lowerASCII_not_upper: "\<not> (65 \<le> byte_of (lowerASCII c) \<and> byte_of (lowerASCII c) \<le> 90)"
  by (simp add: lowerASCII_def byte_of_def)

lemma isASCII_map_lower: "isASCII s \<Longrightarrow> isASCII (map lowerASCII s)"
  by (induction s) (auto simp: isASCII_def lowerASCII_def byte_of_def)

lemma trimLeft_ascii: "isASCII s \<Longrightarrow> \<exists>r. trimLeft L s = Inr r \<and> set r \<subseteq> set s"
  by (induction s) (auto simp: isASCII_def)

lemma trimRight_subset: "list_all (\<lambda>c. byte_of c < 128) s \<Longrightarrow> set (trimRight L s) \<subseteq> set s"
  by (induction s) auto

lemma TrimSpace_ascii: 
  assumes "isASCII s"
  shows "set (TrimSpace L s) \<subseteq> set s"
proof -
  obtain r where r: "trimLeft L s = Inr r" "set r \<subseteq> set s"
    using trimLeft_ascii [OF assms] by blast
  have "list_all (\<lambda>c. byte_of c < 128) (rev r)"
    using r(2) assms by (auto simp: isASCII_def list_all_iff)
  then have "set (trimRight L (rev r)) \<subseteq> set r"
    using trimRight_subset [of "rev r" L] by simp
  then show ?thesis using r by (auto simp: TrimSpace_def)
qed

lemma upper_tokens:
  "\<forall>c\<in>set s. \<not> (65 \<le> byte_of c \<and> byte_of c \<le> 90) \<Longrightarrow>
   s \<notin> {''T'', ''TRUE'', ''True'', ''F'', ''FALSE'', ''False''}"
  by (auto simp: byte_of_def)

lemma Boolean_eq:
  "Boolean L field value =
     (if TrimSpace L (ToLower L value)
           \<in> {''1'', ''t'', ''T'', ''TRUE'', ''true'', ''True'',
              ''0'', ''f'', ''F'', ''FALSE'', ''false'', ''False''}
      then (True, []) else (False, ''This field must be true or false''))"
  by (auto simp: Boolean_def Let_def ParseBool_def)

text \<open>
  C7, as the code has it. \<open>Boolean\<close> lower-cases and trims the value and fails, with
  the message \<open>This field must be true or false\<close>, exactly when the result is not one
  of the tokens of \<open>strconv.ParseBool\<close>: 1, t, T, TRUE, true, True, 0, f, F, FALSE,
  false, False. For an ASCII value the upper-case tokens cannot remain, and \<open>Boolean\<close>
  passes exactly when the result is one of 1, t, true, 0, f, false.
\<close>

theorem Boolean_tokens:
  "Boolean L field value =
     (if TrimSpace L (ToLower L value)
           \<in> {''1'', ''t'', ''T'', ''TRUE'', ''true'', ''True'',
              ''0'', ''f'', ''F'', ''FALSE'', ''false'', ''False''}
      then (True, []) else (False, ''This field must be true or false'')) \<and>
   (isASCII value \<longrightarrow>
      (fst (Boolean L field value) \<longleftrightarrow>
         TrimSpace L (map lowerASCII value) \<in> {''1'', ''t'', ''true'', ''0'', ''f'', ''false''}))"
proof -
  have "fst (Boolean L field value) \<longleftrightarrow>
         TrimSpace L (map lowerASCII value) \<in> {''1'', ''t'', ''true'', ''0'', ''f'', ''false''}"
    if a: "isASCII value"
  proof -
    let ?t = "TrimSpace L (map lowerASCII value)"
    have "isASCII (map lowerASCII value)"
      using a by (rule isASCII_map_lower)
    then have "set ?t \<subseteq> set (map lowerASCII value)"
      by (rule TrimSpace_ascii)
    then have "\<forall>c\<in>set ?t. \<not> (65 \<le> byte_of c \<and> byte_of c \<le> 90)"
      using lowerASCII_not_upper by auto
    from upper_tokens [OF this] show ?thesis
      using a by (auto simp: Boolean_eq ToLower_def)
  qed
  then show ?thesis using Boolean_eq [of L field "value"] by blast
qed

theorem Boolean_tokens_witness:
  "isASCII '' True '' \<and> TrimSpace exampleLib (map lowerASCII '' True '') = ''true'' \<and>
   Boolean exampleLib ''agree'' '' True '' = (True, [])"
proof -
  have a: "isASCII '' True ''" by code_simp
  have t: "TrimSpace exampleLib (map lowerASCII '' True '') = ''true''" by code_simp
  from Boolean_tokens [of exampleLib "''agree''" "'' True ''"] a t
  show ?thesis by (simp add: prod_eq_iff ToLower_def)
qed

text \<open>
  C7, as stated, fails: \<open>yes\<close>, \<open>no\<close> and their like are not accepted.
\<close>

theorem Boolean_rejects_yes_no:
  "Boolean exampleLib ''agree'' ''yes'' = (False, ''This field must be true or false'') \<and>
   Boolean exampleLib ''agree'' ''no'' = (False, ''This field must be true or false'') \<and>
   Boolean exampleLib ''agree'' ''Y'' = (False, ''This field must be true or false'') \<and>
   Boolean exampleLib ''agree'' ''on'' = (False, ''This field must be true or false'')"
  by code_simp

subsection \<open>MinLength\<close>

lemma MinLength_eq:
  "MinLength minlen field value =
     (if int (RuneCountInString value) < minlen then
        (False, ''This field must be at least '' @ FormatInt minlen @ '' characters long'')
      else (True, []))"
  by (simp add: MinLength_def)

text \<open>
  C8. \<open>MinLength min\<close> fails exactly when the rune count of the value is less than
  \<open>min\<close>, with the message \<open>This field must be at least min characters long\<close>. The
  rune count of the UTF-8 encoding of a list of code points is the length of the list,
  not the number of bytes, so on such a value \<open>MinLength min\<close> passes exactly when
  \<open>min\<close> is at most the number of code points; a count equal to \<open>min\<close> passes.
\<close>

theorem MinLength_counts_code_points:
  "MinLength minlen field value =
     (if int (RuneCountInString value) < minlen then
        (False, ''This field must be at least '' @ FormatInt minlen @ '' characters long'')
      else (True, [])) \<and>
   (list_all scalar_value rs \<longrightarrow>
      RuneCountInString (utf8_string rs) = length rs \<and>
      (fst (MinLength minlen field (utf8_string rs)) \<longleftrightarrow> minlen \<le> int (length rs)))"
  using RuneCount_utf8_string [of rs] by (auto simp: MinLength_eq)

theorem MinLength_counts_code_points_witness:
  "list_all scalar_value [0x6A, 0xE9, 0x20AC] \<and>
   utf8_string [0x6A, 0xE9, 0x20AC] = [CHR 0x6A, CHR 0xC3, CHR 0xA9, CHR 0xE2, CHR 0x82, CHR 0xAC] \<and>
   length (utf8_string [0x6A, 0xE9, 0x20AC]) = 6 \<and>
   RuneCountInString (utf8_string [0x6A, 0xE9, 0x20AC]) = 3 \<and>
   MinLength 3 ''name'' (utf8_string [0x6A, 0xE9, 0x20AC]) = (True, []) \<and>
   MinLength 4 ''name'' (utf8_string [0x6A, 0xE9, 0x20AC])
     = (False, ''This field must be at least 4 characters long'')"
proof -
  have s: "list_all scalar_value [0x6A, 0xE9, 0x20AC]" by code_simp
  have u: "utf8_string [0x6A, 0xE9, 0x20AC]
      = [CHR 0x6A, CHR 0xC3, CHR 0xA9, CHR 0xE2, CHR 0x82, CHR 0xAC]" by code_simp
  have f: "FormatInt 4 = ''4''" by code_simp
  from MinLength_counts_code_points [of 3 "''name''" "utf8_string [0x6A, 0xE9, 0x20AC]" "[0x6A, 0xE9, 0x20AC]"]
    MinLength_counts_code_points [of 4 "''name''" "utf8_string [0x6A, 0xE9, 0x20AC]" "[0x6A, 0xE9, 0x20AC]"]
    s
  show ?thesis
    by (simp add: u f)
qed

end
